theory Spec2Isabelle
  imports Complex_Main "HOL-Library.Multiset"
begin

section \<open>Conversion results\<close>

text \<open>
  The object that \<open>convertImage\<close> returns (\<open>converter.js\<close>). A success carries the
  input path, the two artifacts, the original size and the duration; a failure carries
  the input path and the message of the error that was caught. Byte counts and
  durations are JavaScript numbers holding non-negative integers; they are modelled as
  \<open>nat\<close>, which is exact as long as the totals stay below \<open>2^53\<close>.
\<close>

record avif_info =
  avif_path :: string
  avif_size :: nat

record fallback_info =
  fallback_path :: string
  fallback_size :: nat
  fallback_format :: string

datatype result =
    Success (inputPath: string) (avif: avif_info) (fallback: fallback_info)
            (originalSize: nat) (duration: nat)
  | Failure (inputPath: string) (error: string)

fun success :: "result \<Rightarrow> bool" where
  "success (Success p a f n d) = True"
| "success (Failure p m) = False"

section \<open>The summary (\<open>printSummary\<close> in \<open>cli.js\<close>)\<close>

text \<open>
  \<open>r.originalSize || 0\<close>, \<open>r.avif?.size || 0\<close> and \<open>r.fallback?.size || 0\<close>: a failure
  has none of the three fields, so the operand is \<open>undefined\<close> and the term is \<open>0\<close>; on
  a success the field is a number, and a number that is \<open>0\<close> gives \<open>0\<close> as well.
\<close>

fun originalSize_or_0 :: "result \<Rightarrow> nat" where
  "originalSize_or_0 (Success p a f n d) = (if n = 0 then 0 else n)"
| "originalSize_or_0 (Failure p m) = 0"

fun avif_size_or_0 :: "result \<Rightarrow> nat" where
  "avif_size_or_0 (Success p a f n d) = (if avif_size a = 0 then 0 else avif_size a)"
| "avif_size_or_0 (Failure p m) = 0"

fun fallback_size_or_0 :: "result \<Rightarrow> nat" where
  "fallback_size_or_0 (Success p a f n d) =
     (if fallback_size f = 0 then 0 else fallback_size f)"
| "fallback_size_or_0 (Failure p m) = 0"

text \<open>\<open>results.reduce((acc, r) => acc + f(r), 0)\<close>: a left fold from \<open>0\<close>.\<close>

definition reduce_sum :: "(result \<Rightarrow> nat) \<Rightarrow> result list \<Rightarrow> nat" where
  "reduce_sum f results = foldl (\<lambda>acc r. acc + f r) 0 results"

text \<open>
  \<open>Math.round\<close> rounds to the nearest integer, a tie towards \<open>+\<infinity>\<close>. The quotient
  and the product are taken in exact rational arithmetic; the IEEE double rounding
  of the source is not modelled.
\<close>

definition Math_round :: "rat \<Rightarrow> int" where
  "Math_round x = \<lfloor>x + 1 / 2\<rfloor>"

definition reduction :: "nat \<Rightarrow> nat \<Rightarrow> int" where
  "reduction totalOriginalSize totalSize =
     (if totalOriginalSize > 0
      then Math_round ((1 - of_nat totalSize / of_nat totalOriginalSize) * 100)
      else 0)"

record summary =
  successCount :: nat
  failCount :: nat
  totalOriginalSize :: nat
  totalAvifSize :: nat
  totalFallbackSize :: nat
  avifReduction :: int
  fallbackReduction :: int
  errorList :: "(string \<times> string) list"

text \<open>
  What \<open>printSummary\<close> computes and prints. The error list is printed only when
  \<open>failCount > 0\<close>; it holds the failures in the order of \<open>results\<close>.
\<close>

definition printSummary :: "result list \<Rightarrow> summary" where
  "printSummary results =
     (let successCount = length (filter (\<lambda>r. success r) results);
          failCount = length (filter (\<lambda>r. \<not> success r) results);
          totalOriginalSize = reduce_sum originalSize_or_0 results;
          totalAvifSize = reduce_sum avif_size_or_0 results;
          totalFallbackSize = reduce_sum fallback_size_or_0 results
      in \<lparr> successCount = successCount,
           failCount = failCount,
           totalOriginalSize = totalOriginalSize,
           totalAvifSize = totalAvifSize,
           totalFallbackSize = totalFallbackSize,
           avifReduction = reduction totalOriginalSize totalAvifSize,
           fallbackReduction = reduction totalOriginalSize totalFallbackSize,
           errorList = (if failCount > 0
                        then map (\<lambda>r. (inputPath r, error r)) (filter (\<lambda>r. \<not> success r) results)
                        else []) \<rparr>)"

text \<open>The formula of the specification, word for word.\<close>

definition spec_reductionPercent :: "nat \<Rightarrow> nat \<Rightarrow> int" where
  "spec_reductionPercent totalOriginal artifactTotal =
     (if totalOriginal > 0
      then round (100 * (1 - of_nat artifactTotal / of_nat totalOriginal :: rat))
      else 0)"

section \<open>Paths (the POSIX functions of Node's \<open>path\<close> module)\<close>

text \<open>
  \<open>path\<close> is a library of the platform, not code of this repository. Its functions
  are modelled here by their documented behaviour on POSIX, where the only separator
  is \<open>/\<close>. Paths are strings, as in the source.
\<close>

fun split_on :: "char \<Rightarrow> string \<Rightarrow> string list" where
  "split_on c [] = [[]]"
| "split_on c (x # xs) =
     (if x = c then [] # split_on c xs
      else (case split_on c xs of
              s # ss \<Rightarrow> (x # s) # ss
            | [] \<Rightarrow> [[x]]))"

fun join_with :: "string \<Rightarrow> string list \<Rightarrow> string" where
  "join_with sep [] = []"
| "join_with sep [s] = s"
| "join_with sep (s # t # ss) = s @ sep @ join_with sep (t # ss)"

text \<open>
  Normalisation of a sequence of segments: empty segments and \<open>.\<close> are dropped,
  \<open>..\<close> removes the segment before it; where there is none (or it is \<open>..\<close> itself),
  \<open>..\<close> is kept if the path may rise above its root and dropped otherwise.
\<close>

fun normalize_segments :: "bool \<Rightarrow> string list \<Rightarrow> string list \<Rightarrow> string list" where
  "normalize_segments allowAboveRoot res [] = res"
| "normalize_segments allowAboveRoot res (s # ss) =
     (if s = [] \<or> s = ''.'' then normalize_segments allowAboveRoot res ss
      else if s = ''..'' then
        (if res \<noteq> [] \<and> last res \<noteq> ''..''
         then normalize_segments allowAboveRoot (butlast res) ss
         else if allowAboveRoot then normalize_segments allowAboveRoot (res @ [''..'']) ss
         else normalize_segments allowAboveRoot res ss)
      else normalize_segments allowAboveRoot (res @ [s]) ss)"

definition normalizeString :: "string \<Rightarrow> bool \<Rightarrow> string" where
  "normalizeString p allowAboveRoot =
     join_with ''/'' (normalize_segments allowAboveRoot [] (split_on CHR ''/'' p))"

definition isAbsolute :: "string \<Rightarrow> bool" where
  "isAbsolute p = (p \<noteq> [] \<and> hd p = CHR ''/'')"

definition path_normalize :: "string \<Rightarrow> string" where
  "path_normalize p =
     (if p = [] then ''.''
      else (let trailingSeparator = (last p = CHR ''/'');
                n = normalizeString p (\<not> isAbsolute p)
            in if n = [] then (if isAbsolute p then ''/'' else if trailingSeparator then ''./'' else ''.'')
               else (if isAbsolute p then ''/'' else []) @ n
                    @ (if trailingSeparator then ''/'' else [])))"

text \<open>\<open>path.join(...paths)\<close>: the non-empty arguments, joined with \<open>/\<close> and normalised.\<close>

definition path_join :: "string list \<Rightarrow> string" where
  "path_join paths =
     (let joined = join_with ''/'' (filter (\<lambda>a. a \<noteq> []) paths)
      in if joined = [] then ''.'' else path_normalize joined)"

text \<open>
  \<open>path.resolve(...paths)\<close>: the arguments are taken from the right until the path
  is absolute; the working directory comes last.
\<close>

fun resolve_from_right :: "string \<Rightarrow> string list \<Rightarrow> string \<Rightarrow> string" where
  "resolve_from_right cwd [] resolvedPath = cwd @ ''/'' @ resolvedPath"
| "resolve_from_right cwd (p # ps) resolvedPath =
     (if p = [] then resolve_from_right cwd ps resolvedPath
      else if isAbsolute p then p @ ''/'' @ resolvedPath
      else resolve_from_right cwd ps (p @ ''/'' @ resolvedPath))"

definition path_resolve :: "string \<Rightarrow> string list \<Rightarrow> string" where
  "path_resolve cwd paths =
     (let resolvedPath = resolve_from_right cwd (rev paths) [];
          n = normalizeString resolvedPath (\<not> isAbsolute resolvedPath)
      in if isAbsolute resolvedPath then ''/'' @ n
         else if n \<noteq> [] then n else ''.'')"

fun drop_common :: "string list \<Rightarrow> string list \<Rightarrow> string list \<times> string list" where
  "drop_common (x # xs) (y # ys) =
     (if x = y then drop_common xs ys else (x # xs, y # ys))"
| "drop_common xs ys = (xs, ys)"

text \<open>
  \<open>path.relative(from, to)\<close>: both paths are resolved; the segments they share at
  the front are dropped; one \<open>..\<close> for each segment left of \<open>from\<close>, then the
  segments left of \<open>to\<close>.
\<close>

definition path_relative :: "string \<Rightarrow> string \<Rightarrow> string \<Rightarrow> string" where
  "path_relative cwd from to =
     (if from = to then []
      else (let from' = path_resolve cwd [from];
                to' = path_resolve cwd [to]
            in if from' = to' then []
               else (case drop_common (filter (\<lambda>s. s \<noteq> []) (split_on CHR ''/'' from'))
                                      (filter (\<lambda>s. s \<noteq> []) (split_on CHR ''/'' to')) of
                       (up, down) \<Rightarrow> join_with ''/'' (replicate (length up) ''..'' @ down))))"

text \<open>
  \<open>path.dirname(p)\<close>: separators at the end are ignored, then the last segment is cut
  off together with the separator before it. The first character is never cut.
\<close>

definition path_dirname :: "string \<Rightarrow> string" where
  "path_dirname p =
     (if p = [] then ''.''
      else (let rest = dropWhile (\<lambda>c. c \<noteq> CHR ''/'')
                         (dropWhile (\<lambda>c. c = CHR ''/'') (rev (tl p)))
            in if rest = [] then (if isAbsolute p then ''/'' else ''.'')
               else if isAbsolute p \<and> tl rest = [] then ''//''
               else hd p # rev (tl rest)))"

text \<open>\<open>path.basename(p)\<close>: the last segment, separators at the end ignored.\<close>

definition path_basename :: "string \<Rightarrow> string" where
  "path_basename p =
     rev (takeWhile (\<lambda>c. c \<noteq> CHR ''/'') (dropWhile (\<lambda>c. c = CHR ''/'') (rev p)))"

text \<open>
  \<open>path.extname(p)\<close>: from the last \<open>.\<close> of the last segment to its end; empty if
  there is no \<open>.\<close>, if the only \<open>.\<close> is the first character of the segment, or if the
  segment is \<open>..\<close>.
\<close>

definition path_extname :: "string \<Rightarrow> string" where
  "path_extname p =
     (let base = path_basename p;
          after_dot = takeWhile (\<lambda>c. c \<noteq> CHR ''.'') (rev base)
      in if length after_dot = length base then []
         else if length after_dot + 1 = length base then []
         else if base = ''..'' then []
         else CHR ''.'' # rev after_dot)"

text \<open>
  \<open>path.basename(p, suffix)\<close>: the last segment without \<open>suffix\<close>, if it ends with
  \<open>suffix\<close> and is more than \<open>suffix\<close>.
\<close>

definition path_basename_suffix :: "string \<Rightarrow> string \<Rightarrow> string" where
  "path_basename_suffix p suffix =
     (let base = path_basename p
      in if suffix \<noteq> [] \<and> suffix = p then []
         else if suffix \<noteq> [] \<and> length suffix < length base
                 \<and> drop (length base - length suffix) base = suffix
         then take (length base - length suffix) base
         else base)"

section \<open>The platform: file system, clock, image library\<close>

text \<open>
  Everything \<open>convertImage\<close> and \<open>main\<close> do to the outside goes through
  \<open>fs/promises\<close>, \<open>sharp\<close>, \<open>glob\<close>, \<open>os\<close> and \<open>Date\<close>. These are libraries of the
  platform; the model below keeps what the program depends on.

  \<^item> The file system maps a path to a regular file with its bytes or to a directory.
  \<^item> Any operation can fail for a reason that the model does not look into (a
    permission, a full disk, an encoder error): \<open>faults\<close> gives the message of the
    error with which an operation fails. The failures that follow from the state of
    the file system (a missing file, a missing directory) are part of the operations.
  \<^item> Every operation takes time: \<open>latency\<close>. \<open>Date.now()\<close> reads \<open>clock\<close>.
  \<^item> \<open>image_format\<close> is the format \<open>sharp\<close> detects in the bytes of a file (\<open>None\<close>:
    not an image it can read), \<open>image_encode\<close> the bytes an encoder produces.
  \<^item> \<open>glob_matches\<close> is what \<open>glob\<close> returns for a search pattern, \<open>cpus\<close> is
    \<open>os.cpus().length\<close>, \<open>cwd\<close> is \<open>process.cwd()\<close>.
\<close>

datatype js_error = Error (message: string)

datatype entry = File "nat list" | Directory

datatype io_op =
    Access string | Mkdir string | Rm string | Stat string | Metadata string | ToFile string

datatype encoder =
    Avif int int string      \<comment> \<open>\<open>.avif({ quality, effort, chromaSubsampling })\<close>\<close>
  | Jpeg int bool            \<comment> \<open>\<open>.jpeg({ quality, mozjpeg })\<close>\<close>
  | Png int bool nat         \<comment> \<open>\<open>.png({ quality, palette, compressionLevel })\<close>\<close>
  | Webp int                 \<comment> \<open>\<open>.webp({ quality })\<close>\<close>
  | Unchanged                \<comment> \<open>no output format chosen on the pipeline\<close>

record world =
  fs :: "string \<rightharpoonup> entry"
  faults :: "io_op \<rightharpoonup> string"
  latency :: "io_op \<Rightarrow> nat"
  clock :: nat
  dir_size :: nat
  image_format :: "nat list \<Rightarrow> string option"
  image_encode :: "encoder \<Rightarrow> string \<Rightarrow> nat list \<Rightarrow> nat list"
  glob_matches :: "string \<Rightarrow> string list"
  cpus :: nat
  cwd :: string

type_synonym 'a io = "world \<Rightarrow> (js_error + 'a) \<times> world"

definition io_bind :: "'a io \<Rightarrow> ('a \<Rightarrow> 'b io) \<Rightarrow> 'b io" where
  "io_bind m f w = (case m w of (Inl e, w') \<Rightarrow> (Inl e, w') | (Inr x, w') \<Rightarrow> f x w')"

definition io_return :: "'a \<Rightarrow> 'a io" where
  "io_return x w = (Inr x, w)"

definition io_throw :: "js_error \<Rightarrow> 'a io" where
  "io_throw e w = (Inl e, w)"

text \<open>An operation takes its time, then fails with its fault if it has one.\<close>

definition attempt :: "io_op \<Rightarrow> 'a io \<Rightarrow> 'a io" where
  "attempt op body w =
     (let w' = w\<lparr> clock := clock w + latency w op \<rparr>
      in case faults w op of
           Some msg \<Rightarrow> (Inl (Error msg), w')
         | None \<Rightarrow> body w')"

definition Date_now :: "nat io" where
  "Date_now w = (Inr (clock w), w)"

text \<open>\<open>q\<close> is \<open>dir\<close> or lies below it.\<close>

definition path_under :: "string \<Rightarrow> string \<Rightarrow> bool" where
  "path_under dir q =
     (q = dir \<or>
      (let d = (if dir \<noteq> [] \<and> last dir = CHR ''/'' then dir else dir @ ''/'')
       in take (length d) q = d))"

text \<open>The directories above \<open>p\<close>, the root first.\<close>

definition dirs_above :: "string \<Rightarrow> string list" where
  "dirs_above p =
     (if isAbsolute p \<and> tl p \<noteq> [] then [''/''] else [])
     @ map (\<lambda>i. take i p)
         (filter (\<lambda>i. p ! i = CHR ''/'' \<and> p ! (i - 1) \<noteq> CHR ''/'') [1..<length p])"

fun make_dirs :: "string list \<Rightarrow> (string \<rightharpoonup> entry) \<Rightarrow> (string \<rightharpoonup> entry)" where
  "make_dirs [] m = m"
| "make_dirs (d # ds) m = make_dirs ds (m(d \<mapsto> Directory))"

text \<open>\<open>fs.access(p)\<close>\<close>

definition fs_access :: "string \<Rightarrow> unit io" where
  "fs_access p =
     attempt (Access p) (\<lambda>w.
       case fs w p of
         Some _ \<Rightarrow> (Inr (), w)
       | None \<Rightarrow> (Inl (Error (''ENOENT: no such file or directory, access '' @ p)), w))"

text \<open>
  \<open>fs.mkdir(p, { recursive: true })\<close>: creates \<open>p\<close> and the directories above it that
  are missing; no error if \<open>p\<close> is a directory already; an error if \<open>p\<close> or a path
  above it is a regular file.
\<close>

definition fs_mkdir :: "string \<Rightarrow> unit io" where
  "fs_mkdir p =
     attempt (Mkdir p) (\<lambda>w.
       if list_ex (\<lambda>d. case fs w d of Some (File _) \<Rightarrow> True | _ \<Rightarrow> False) (dirs_above p @ [p])
       then (Inl (Error (''EEXIST: file already exists, mkdir '' @ p)), w)
       else (Inr (), w\<lparr> fs := make_dirs (dirs_above p @ [p]) (fs w) \<rparr>))"

text \<open>
  \<open>fs.rm(p, { recursive: true, force: true })\<close>: removes \<open>p\<close> and everything below
  it; no error if \<open>p\<close> does not exist. A removal that fails is taken to remove
  nothing.
\<close>

definition fs_rm :: "string \<Rightarrow> unit io" where
  "fs_rm p =
     attempt (Rm p) (\<lambda>w.
       (Inr (), w\<lparr> fs := (\<lambda>q. if path_under p q then None else fs w q) \<rparr>))"

text \<open>\<open>(await fs.stat(p)).size\<close>\<close>

definition fs_stat_size :: "string \<Rightarrow> nat io" where
  "fs_stat_size p =
     attempt (Stat p) (\<lambda>w.
       case fs w p of
         Some (File bytes) \<Rightarrow> (Inr (length bytes), w)
       | Some Directory \<Rightarrow> (Inr (dir_size w), w)
       | None \<Rightarrow> (Inl (Error (''ENOENT: no such file or directory, stat '' @ p)), w))"

text \<open>\<open>(await sharp(p).metadata()).format\<close>\<close>

definition sharp_metadata_format :: "string \<Rightarrow> string io" where
  "sharp_metadata_format p =
     attempt (Metadata p) (\<lambda>w.
       case fs w p of
         Some (File bytes) \<Rightarrow>
           (case image_format w bytes of
              Some format \<Rightarrow> (Inr format, w)
            | None \<Rightarrow> (Inl (Error ''Input file contains unsupported image format''), w))
       | _ \<Rightarrow> (Inl (Error (''Input file is missing: '' @ p)), w))"

text \<open>
  \<open>sharp(src).clone(). ... .toFile(dst)\<close>: reads and decodes \<open>src\<close>, encodes with the
  encoder chosen on the pipeline (without one, \<open>sharp\<close> goes by the extension of
  \<open>dst\<close>, which \<open>image_encode\<close> is given), and writes \<open>dst\<close>. The directory of \<open>dst\<close>
  must exist.
\<close>

definition sharp_toFile :: "encoder \<Rightarrow> string \<Rightarrow> string \<Rightarrow> unit io" where
  "sharp_toFile enc src dst =
     attempt (ToFile dst) (\<lambda>w.
       if src = dst then (Inl (Error ''Cannot use same file for input and output''), w)
       else case fs w src of
         Some (File bytes) \<Rightarrow>
           (if image_format w bytes = None
            then (Inl (Error ''Input file contains unsupported image format''), w)
            else if fs w (path_dirname dst) \<noteq> Some Directory \<or> fs w dst = Some Directory
            then (Inl (Error (dst @ '': unable to open for write'')), w)
            else (Inr (), w\<lparr> fs := (fs w)(dst \<mapsto> File (image_encode w enc (path_extname dst) bytes)) \<rparr>))
       | _ \<Rightarrow> (Inl (Error (''Input file is missing: '' @ src)), w))"

section \<open>\<open>utils.js\<close>\<close>

text \<open>
  \<open>findImages(directory, pattern)\<close>. On POSIX \<open>path.sep\<close> is \<open>/\<close>, so
  \<open>directory.split(path.sep).join('/')\<close> is \<open>directory\<close>.
\<close>

definition findImages :: "string \<Rightarrow> string \<Rightarrow> world \<Rightarrow> string list" where
  "findImages directory pattern w =
     (let searchPattern =
            path_join [join_with ''/'' (split_on CHR ''/'' directory), ''**'', pattern]
      in glob_matches w searchPattern)"

definition ensureDirectory :: "string \<Rightarrow> bool \<Rightarrow> unit io" where
  "ensureDirectory dirPath createIfMissing w =
     (case fs_access dirPath w of
        (Inr u, w') \<Rightarrow> (Inr (), w')
      | (Inl err, w') \<Rightarrow>
          (if createIfMissing then fs_mkdir dirPath w'
           else (Inl (Error (''Directory not found: '' @ dirPath)), w')))"

definition cleanDirectory :: "string \<Rightarrow> unit io" where
  "cleanDirectory dirPath w =
     (case io_bind (fs_rm dirPath) (\<lambda>u. fs_mkdir dirPath) w of
        (Inr u, w') \<Rightarrow> (Inr (), w')
      | (Inl err, w') \<Rightarrow>
          (Inl (Error (''Failed to clean directory: '' @ dirPath @ ''. '' @ message err)), w'))"

section \<open>\<open>convertImage\<close> (\<open>converter.js\<close>)\<close>

record config =
  cfg_input :: string     \<comment> \<open>\<open>config.input\<close>\<close>
  cfg_output :: string    \<comment> \<open>\<open>config.output\<close>\<close>
  quality :: int
  effort :: int
  pattern :: string
  yes :: bool
  silent :: bool
  resize :: "string option"

text \<open>The paths of lines 181 to 184 and 212 to 213.\<close>

definition outputDir_of :: "string \<Rightarrow> string \<Rightarrow> string \<Rightarrow> string \<Rightarrow> string" where
  "outputDir_of cwd' filePath inputRoot outputRoot =
     (let relativePath = path_relative cwd' inputRoot filePath
      in path_dirname (path_join [outputRoot, relativePath]))"

definition outputFilePath_of :: "string \<Rightarrow> string \<Rightarrow> string \<Rightarrow> string \<Rightarrow> string" where
  "outputFilePath_of cwd' filePath inputRoot outputRoot =
     (let outputDir = outputDir_of cwd' filePath inputRoot outputRoot;
          fileName = path_basename_suffix filePath (path_extname filePath)
      in path_join [outputDir, fileName @ ''.avif''])"

definition fallbackFilePath_of :: "string \<Rightarrow> string \<Rightarrow> string \<Rightarrow> string \<Rightarrow> string" where
  "fallbackFilePath_of cwd' filePath inputRoot outputRoot =
     (let outputDir = outputDir_of cwd' filePath inputRoot outputRoot;
          fallbackFileName = path_basename filePath
      in path_join [outputDir, fallbackFileName])"

text \<open>The encoder of the fallback, by the detected format (lines 217 to 229).\<close>

definition fallbackPipeline :: "string \<Rightarrow> config \<Rightarrow> encoder" where
  "fallbackPipeline format options =
     (if format = ''jpeg'' \<or> format = ''jpg'' then Jpeg (quality options) True
      else if format = ''png'' then Png (quality options) True 9
      else if format = ''webp'' then Webp (quality options)
      else Unchanged)"

text \<open>The body of the \<open>try\<close> block.\<close>

definition convertImage_try :: "string \<Rightarrow> string \<Rightarrow> string \<Rightarrow> config \<Rightarrow> result io" where
  "convertImage_try filePath inputRoot outputRoot options w0 =
     (let outputDir = outputDir_of (cwd w0) filePath inputRoot outputRoot;
          outputFilePath = outputFilePath_of (cwd w0) filePath inputRoot outputRoot;
          fallbackFilePath = fallbackFilePath_of (cwd w0) filePath inputRoot outputRoot
      in
       io_bind (ensureDirectory outputDir True) (\<lambda>u.
       io_bind (fs_stat_size filePath) (\<lambda>originalSize.
       io_bind Date_now (\<lambda>start.
       io_bind (sharp_metadata_format filePath) (\<lambda>format.
       io_bind (sharp_toFile (Avif (quality options) (effort options) ''4:4:4'')
                  filePath outputFilePath) (\<lambda>u.
       io_bind (fs_stat_size outputFilePath) (\<lambda>avifStats_size.
       io_bind (sharp_toFile (fallbackPipeline format options) filePath fallbackFilePath) (\<lambda>u.
       io_bind (fs_stat_size fallbackFilePath) (\<lambda>fallbackStats_size.
       io_bind Date_now (\<lambda>end'.
       io_return
         (Success filePath
            \<lparr> avif_path = outputFilePath, avif_size = avifStats_size \<rparr>
            \<lparr> fallback_path = fallbackFilePath, fallback_size = fallbackStats_size,
              fallback_format = format \<rparr>
            originalSize
            (end' - start))))))))))) w0)"

text \<open>\<open>try { ... } catch (error) { return { success: false, inputPath, error: error.message } }\<close>\<close>

definition convertImage :: "string \<Rightarrow> string \<Rightarrow> string \<Rightarrow> config \<Rightarrow> world \<Rightarrow> result \<times> world" where
  "convertImage filePath inputRoot outputRoot options w =
     (case convertImage_try filePath inputRoot outputRoot options w of
        (Inr res, w') \<Rightarrow> (res, w')
      | (Inl err, w') \<Rightarrow> (Failure filePath (message err), w'))"

section \<open>The scheduler (the loop of \<open>main\<close> in \<open>index.js\<close>)\<close>

text \<open>
  JavaScript runs \<open>main\<close> and the promise callbacks on one thread. \<open>main\<close> runs
  without interruption until it reaches an \<open>await\<close>; while it is suspended there, the
  jobs it has started settle in an order that the environment chooses, and the
  callback of each settled job runs (\<open>results.push(res)\<close> and
  \<open>executing.splice(executing.indexOf(p), 1)\<close>). An execution is therefore a sequence
  of events: \<open>Resume\<close> lets \<open>main\<close> run up to its next \<open>await\<close>, \<open>Settle i\<close> is the
  completion of the job of the \<open>i\<close>-th file together with its callback.

  The promise \<open>p\<close> of the \<open>i\<close>-th file is identified with \<open>i\<close>. A job is taken to
  perform its effect on the world at the moment it settles; \<open>job\<close> is the effect
  of one job (in \<open>main\<close>: \<open>convertImage\<close>, which never rejects). The progress bar
  is not modelled.
\<close>

datatype event = Resume | Settle nat

datatype phase =
    Looping                \<comment> \<open>\<open>main\<close> is at the head of the \<open>for\<close> loop\<close>
  | Racing "nat list"      \<comment> \<open>suspended at \<open>await Promise.race(executing)\<close>\<close>
  | Joining "nat list"     \<comment> \<open>suspended at \<open>await Promise.all(executing)\<close>\<close>
  | Finished               \<comment> \<open>past \<open>Promise.all\<close>\<close>

record 'w sched =
  next_file :: nat         \<comment> \<open>position of the \<open>for ... of\<close> iterator in \<open>files\<close>\<close>
  executing :: "nat list"
  settled :: "nat list"    \<comment> \<open>the promises that have resolved, in the order they did\<close>
  results :: "result list"
  phase :: phase
  world :: 'w

definition init_sched :: "'w \<Rightarrow> 'w sched" where
  "init_sched w =
     \<lparr> next_file = 0, executing = [], settled = [], results = [], phase = Looping,
       world = w \<rparr>"

text \<open>
  \<open>executing.splice(executing.indexOf(p), 1)\<close>: \<open>indexOf\<close> is the first index of \<open>p\<close>,
  or \<open>-1\<close>; \<open>splice(-1, 1)\<close> removes the last element.
\<close>

definition splice_indexOf :: "nat list \<Rightarrow> nat \<Rightarrow> nat list" where
  "splice_indexOf xs p = (if p \<in> set xs then remove1 p xs else butlast xs)"

definition in_flight :: "'w sched \<Rightarrow> nat list" where
  "in_flight s = filter (\<lambda>i. i \<notin> set (settled s)) [0..<next_file s]"

fun step ::
  "(string \<Rightarrow> 'w \<Rightarrow> result \<times> 'w) \<Rightarrow> string list \<Rightarrow> nat \<Rightarrow> event \<Rightarrow> 'w sched \<Rightarrow> 'w sched option"
where
  "step job files concurrency (Settle i) s =
     (if (phase s = Looping \<or> phase s = Finished) \<or> \<not> i < next_file s \<or> \<not> i < length files
         \<or> i \<in> set (settled s)
      then None
      else (case job (files ! i) (world s) of (res, w') \<Rightarrow>
              Some (s\<lparr> settled := settled s @ [i],
                      results := results s @ [res],
                      executing := splice_indexOf (executing s) i,
                      world := w' \<rparr>)))"
| "step job files concurrency Resume s =
     (case phase s of
        Looping \<Rightarrow>
          (if next_file s < length files
           then (let executing' = executing s @ [next_file s]
                 in Some (s\<lparr> next_file := next_file s + 1,
                            executing := executing',
                            phase := (if length executing' \<ge> concurrency
                                      then Racing executing' else Looping) \<rparr>))
           else Some (s\<lparr> phase := Joining (executing s) \<rparr>))
      | Racing snapshot \<Rightarrow>
          (if list_ex (\<lambda>p. p \<in> set (settled s)) snapshot
           then Some (s\<lparr> phase := Looping \<rparr>) else None)
      | Joining snapshot \<Rightarrow>
          (if list_all (\<lambda>p. p \<in> set (settled s)) snapshot
           then Some (s\<lparr> phase := Finished \<rparr>) else None)
      | Finished \<Rightarrow> None)"

fun run ::
  "(string \<Rightarrow> 'w \<Rightarrow> result \<times> 'w) \<Rightarrow> string list \<Rightarrow> nat \<Rightarrow> event list \<Rightarrow> 'w sched \<Rightarrow> 'w sched option"
where
  "run job files concurrency [] s = Some s"
| "run job files concurrency (e # es) s =
     (case step job files concurrency e s of
        None \<Rightarrow> None
      | Some s' \<Rightarrow> run job files concurrency es s')"

text \<open>
  The invariant of the loop. It says in particular that the array \<open>executing\<close> holds
  exactly the promises that were created and have not resolved, in creation order,
  so \<open>indexOf\<close> always finds \<open>p\<close>.
\<close>

definition phase_inv :: "string list \<Rightarrow> 'w sched \<Rightarrow> bool" where
  "phase_inv files s =
     (case phase s of
        Looping \<Rightarrow> True
      | Racing snapshot \<Rightarrow>
          snapshot \<noteq> [] \<and> distinct snapshot \<and> set snapshot \<subseteq> {0..<next_file s}
          \<and> set (executing s) \<subseteq> set snapshot
      | Joining snapshot \<Rightarrow>
          next_file s = length files \<and> set snapshot \<subseteq> {0..<next_file s}
          \<and> set (executing s) \<subseteq> set snapshot
      | Finished \<Rightarrow> next_file s = length files \<and> executing s = [])"

definition sched_inv :: "string list \<Rightarrow> 'w sched \<Rightarrow> bool" where
  "sched_inv files s =
     (next_file s \<le> length files
      \<and> distinct (settled s) \<and> set (settled s) \<subseteq> {0..<next_file s}
      \<and> executing s = in_flight s
      \<and> length (results s) = length (settled s)
      \<and> phase_inv files s)"

definition bound_inv :: "nat \<Rightarrow> 'w sched \<Rightarrow> bool" where
  "bound_inv concurrency s =
     (length (executing s) \<le> concurrency
      \<and> (case phase s of
            Looping \<Rightarrow> length (executing s) < concurrency
          | Racing snapshot \<Rightarrow> length snapshot \<le> concurrency
          | _ \<Rightarrow> True))"

text \<open>The number of events that can still happen.\<close>

definition remaining :: "string list \<Rightarrow> 'w sched \<Rightarrow> nat" where
  "remaining files s =
     2 * (length files - next_file s) + (length files - length (settled s))
     + (case phase s of Racing _ \<Rightarrow> 3 | Looping \<Rightarrow> 2 | Joining _ \<Rightarrow> 1 | Finished \<Rightarrow> 0)"

section \<open>\<open>main\<close> (\<open>index.js\<close>)\<close>

text \<open>
  The options as \<open>commander\<close> hands them over: an option that was not given is
  \<open>undefined\<close> (\<open>None\<close>), \<open>--quality\<close> and \<open>--effort\<close> went through \<open>parseInt\<close>, and
  \<open>--pattern\<close>, \<open>--yes\<close> and \<open>--silent\<close> have defaults.
\<close>

datatype parsed = NaN | Number int

record options =
  opt_input :: "string option"
  opt_output :: "string option"
  opt_quality :: "parsed option"
  opt_effort :: "parsed option"
  opt_resize :: "string option"
  opt_pattern :: string
  opt_yes :: bool
  opt_silent :: bool

text \<open>
  \<open>a || b\<close>: \<open>b\<close> if \<open>a\<close> is falsy. Of the strings only the empty one is falsy, of
  the numbers \<open>0\<close> and \<open>NaN\<close>; \<open>undefined\<close> is falsy.
\<close>

definition string_or :: "string option \<Rightarrow> string \<Rightarrow> string" where
  "string_or a b = (case a of Some s \<Rightarrow> (if s = [] then b else s) | None \<Rightarrow> b)"

definition number_or :: "parsed option \<Rightarrow> int \<Rightarrow> int" where
  "number_or a b = (case a of Some (Number n) \<Rightarrow> (if n = 0 then b else n) | _ \<Rightarrow> b)"

definition falsy_string :: "string option \<Rightarrow> bool" where
  "falsy_string a = (case a of Some s \<Rightarrow> s = [] | None \<Rightarrow> True)"

text \<open>\<open>const isInteractive = !options.input && !options.output\<close>\<close>

definition isInteractive :: "options \<Rightarrow> bool" where
  "isInteractive opts = (falsy_string (opt_input opts) \<and> falsy_string (opt_output opts))"

text \<open>\<open>let config = { ... }\<close> (lines 36 to 45)\<close>

definition initial_config :: "options \<Rightarrow> config" where
  "initial_config opts =
     \<lparr> cfg_input = string_or (opt_input opts) ''./input'',
       cfg_output = string_or (opt_output opts) ''./output'',
       quality = number_or (opt_quality opts) 80,
       effort = number_or (opt_effort opts) 4,
       pattern = string_or (Some (opt_pattern opts)) ''*.{png,jpg,jpeg,webp}'',
       yes = (opt_yes opts \<or> False),
       silent = (opt_silent opts \<or> False),
       resize = opt_resize opts \<rparr>"

text \<open>
  What the user enters: the three answers of \<open>askQuestions\<close> and the answer of
  \<open>confirmProcessing\<close>. The prompt accepts a quality from \<open>0\<close> to \<open>100\<close>; it is taken
  to be an integer.
\<close>

record answers =
  ans_input :: string
  ans_output :: string
  ans_quality :: int

record user =
  asked :: answers
  confirmed :: bool

text \<open>\<open>if (isInteractive) { config = { ...config, ...answers } }\<close>\<close>

definition effective_config :: "options \<Rightarrow> user \<Rightarrow> config" where
  "effective_config opts usr =
     (let config = initial_config opts
      in if isInteractive opts
         then config\<lparr> cfg_input := ans_input (asked usr),
                      cfg_output := ans_output (asked usr),
                      quality := ans_quality (asked usr) \<rparr>
         else config)"

text \<open>
  How a run ends: with \<open>process.exit\<close> before the conversion, with the rejection of
  \<open>main\<close> (caught at the bottom of the file: exit status \<open>1\<close>), or with the summary.
  \<open>Completed\<close> carries the warnings printed on the way.
\<close>

datatype outcome =
    Input_not_found string     \<comment> \<open>exit status \<open>1\<close>\<close>
  | No_images                  \<comment> \<open>exit status \<open>0\<close>\<close>
  | Cancelled                  \<comment> \<open>exit status \<open>0\<close>\<close>
  | Unexpected_error string    \<comment> \<open>exit status \<open>1\<close>\<close>
  | Completed "string list" summary

datatype prepared =
    Stop outcome
  | Ready config string string "string list" "string list"
      \<comment> \<open>\<open>config\<close>, \<open>inputPath\<close>, \<open>outputPath\<close>, \<open>files\<close>, warnings\<close>

text \<open>
  \<open>main\<close> up to the conversion (lines 27 to 106). The error that \<open>cleanDirectory\<close>
  throws is a new \<open>Error\<close> without a \<open>code\<close>, so \<open>e.code !== 'ENOENT'\<close> holds and the
  warning is printed whenever \<open>cleanDirectory\<close> fails.
\<close>

definition main_prepare :: "options \<Rightarrow> user \<Rightarrow> world \<Rightarrow> prepared \<times> world" where
  "main_prepare opts usr w =
     (let config = effective_config opts usr;
          inputPath = path_resolve (cwd w) [cwd w, cfg_input config];
          outputPath = path_resolve (cwd w) [cwd w, cfg_output config]
      in case ensureDirectory inputPath False w of
           (Inl e, w1) \<Rightarrow> (Stop (Input_not_found inputPath), w1)
         | (Inr u, w1) \<Rightarrow>
             (let files = findImages inputPath (pattern config) w1
              in if length files = 0 then (Stop No_images, w1)
                 else if \<not> yes config \<and> isInteractive opts \<and> \<not> confirmed usr
                 then (Stop Cancelled, w1)
                 else (case cleanDirectory outputPath w1 of (cleaned, w2) \<Rightarrow>
                         (let warnings =
                                (case cleaned of
                                   Inl e \<Rightarrow> [''Failed to reset the output folder: '' @ message e]
                                 | Inr u \<Rightarrow> [])
                          in case ensureDirectory outputPath True w2 of
                               (Inl e, w3) \<Rightarrow> (Stop (Unexpected_error (message e)), w3)
                             | (Inr u, w3) \<Rightarrow>
                                 (Ready config inputPath outputPath files warnings, w3)))))"

text \<open>
  The whole of \<open>main\<close>. The events are the execution of the conversion loop;
  \<open>None\<close> says that they are not a complete execution of it. A run that stops before
  the conversion has no events.
\<close>

definition main :: "options \<Rightarrow> user \<Rightarrow> event list \<Rightarrow> world \<Rightarrow> (outcome \<times> world) option" where
  "main opts usr es w =
     (case main_prepare opts usr w of
        (Stop out, w') \<Rightarrow> (if es = [] then Some (out, w') else None)
      | (Ready config inputPath' outputPath' files warnings, w') \<Rightarrow>
          (let concurrency = cpus w'
           in case run (\<lambda>file. convertImage file inputPath' outputPath' config)
                       files concurrency es (init_sched w') of
                None \<Rightarrow> None
              | Some s \<Rightarrow>
                  (if phase s = Finished
                   then Some (Completed warnings (printSummary (results s)), world s)
                   else None)))"

section \<open>Properties of the summary\<close>

lemma reduce_sum_foldl:
  "foldl (\<lambda>acc r. acc + f r) (a::nat) rs = a + sum_list (map f rs)"
  by (induction rs arbitrary: a) simp_all

lemma reduce_sum_eq: "reduce_sum f rs = sum_mset (image_mset f (mset rs))"
  by (simp add: reduce_sum_def reduce_sum_foldl sum_mset_sum_list [symmetric] del: sum_mset_sum_list)

lemma length_filter_mset: "length (filter P rs) = size (filter_mset P (mset rs))"
  by (metis mset_filter size_mset)

section \<open>Properties of the scheduler\<close>

lemma in_flight_settle:
  assumes "i < n" "i \<notin> set st"
  shows "splice_indexOf (filter (\<lambda>j. j \<notin> set st) [0..<n]) i = filter (\<lambda>j. j \<notin> set (st @ [i])) [0..<n]"
proof -
  have d: "distinct (filter (\<lambda>j. j \<notin> set st) [0..<n])" by simp
  have m: "i \<in> set (filter (\<lambda>j. j \<notin> set st) [0..<n])" using assms by simp
  have "remove1 i (filter (\<lambda>j. j \<notin> set st) [0..<n]) = filter (\<lambda>j. j \<noteq> i) (filter (\<lambda>j. j \<notin> set st) [0..<n])"
    using d by (simp add: distinct_remove1_removeAll removeAll_filter_not_eq eq_commute[of i] conj_commute)
  also have "\<dots> = filter (\<lambda>j. j \<notin> set (st @ [i])) [0..<n]"
    by (auto intro!: filter_cong)
  finally show ?thesis using m by (simp add: splice_indexOf_def)
qed

lemma in_flight_start:
  assumes "set st \<subseteq> {0..<n}"
  shows "filter (\<lambda>j. j \<notin> set st) [0..<n] @ [n] = filter (\<lambda>j. j \<notin> set st) [0..<Suc n]"
  using assms by auto

lemma sched_inv_init: "sched_inv files (init_sched w)"
  by (simp add: sched_inv_def init_sched_def in_flight_def phase_inv_def)

lemma sched_inv_step:
  assumes "sched_inv files s" "step job files N e s = Some s'"
  shows "sched_inv files s'"
proof (cases e)
  case Resume
  show ?thesis
  proof (cases "phase s")
    case Looping
    then show ?thesis using assms Resume
      by (auto simp: sched_inv_def phase_inv_def in_flight_def Let_def split: if_splits)
  next
    case (Racing snap)
    then show ?thesis using assms Resume
      by (auto simp: sched_inv_def phase_inv_def in_flight_def Let_def split: if_splits)
  next
    case (Joining snap)
    with assms Resume have a: "\<forall>p\<in>set snap. p \<in> set (settled s)" and s': "s' = s\<lparr>phase := Finished\<rparr>"
      by (auto simp: list_all_iff split: if_splits)
    from assms(1) Joining have "set (executing s) \<subseteq> set snap" "executing s = in_flight s"
      "next_file s = length files"
      by (auto simp: sched_inv_def phase_inv_def)
    with a have "executing s = []" by (auto simp: in_flight_def filter_empty_conv)
    with assms(1) Joining show ?thesis
      by (auto simp: s' sched_inv_def phase_inv_def in_flight_def)
  next
    case Finished
    then show ?thesis using assms Resume by simp
  qed
next
  case (Settle i)
  obtain res w' where j: "job (files ! i) (world s) = (res, w')" by (cases "job (files ! i) (world s)")
  from assms Settle j have g: "i < next_file s" "i \<notin> set (settled s)" "phase s \<noteq> Looping" "phase s \<noteq> Finished"
    and s': "s' = s\<lparr> settled := settled s @ [i], results := results s @ [res],
                      executing := splice_indexOf (executing s) i, world := w' \<rparr>"
    by (auto split: if_splits)
  have ex: "executing s' = in_flight s'"
    using assms(1) g in_flight_settle[of i "next_file s" "settled s"]
    by (simp add: s' sched_inv_def in_flight_def)
  have sub: "set (executing s') \<subseteq> set (executing s)"
    using assms(1) ex by (auto simp: s' sched_inv_def in_flight_def)
  have ph: "phase_inv files s'"
  proof (cases "phase s")
    case (Racing snap)
    with assms(1) have "set (executing s) \<subseteq> set snap" by (auto simp: sched_inv_def phase_inv_def)
    with sub have "set (executing s') \<subseteq> set snap" by blast
    with assms(1) Racing show ?thesis by (auto simp: s' sched_inv_def phase_inv_def)
  next
    case (Joining snap)
    with assms(1) have "set (executing s) \<subseteq> set snap" by (auto simp: sched_inv_def phase_inv_def)
    with sub have "set (executing s') \<subseteq> set snap" by blast
    with assms(1) Joining show ?thesis by (auto simp: s' sched_inv_def phase_inv_def)
  qed (use g in simp_all)
  show ?thesis using assms(1) g ex ph
    by (simp add: sched_inv_def) (auto simp: s')
qed


lemma length_splice_indexOf: "length (splice_indexOf xs p) \<le> length xs"
  by (simp add: splice_indexOf_def length_remove1)

lemma bound_inv_init: "1 \<le> N \<Longrightarrow> bound_inv N (init_sched w)"
  by (simp add: bound_inv_def init_sched_def)

lemma racing_resume_bound:
  assumes "sched_inv files s" "phase s = Racing snap" "p \<in> set snap" "p \<in> set (settled s)"
  shows "length (executing s) < length snap"
proof -
  from assms(1,2) have sub: "set (executing s) \<subseteq> set snap" and d: "distinct snap"
    and ex: "executing s = in_flight s"
    by (auto simp: sched_inv_def phase_inv_def)
  have "p \<notin> set (executing s)" using assms(4) by (simp add: ex in_flight_def)
  with sub assms(3) have "set (executing s) \<subset> set snap" by blast
  then have "card (set (executing s)) < card (set snap)" by (simp add: psubset_card_mono)
  moreover have "distinct (executing s)" by (simp add: ex in_flight_def)
  ultimately show ?thesis using d by (simp add: distinct_card)
qed

lemma bound_inv_step:
  assumes "sched_inv files s" "bound_inv N s" "step job files N e s = Some s'"
  shows "bound_inv N s'"
proof (cases e)
  case Resume
  show ?thesis
  proof (cases "phase s")
    case Looping
    then show ?thesis using assms Resume
      by (auto simp: bound_inv_def Let_def split: if_splits)
  next
    case (Racing snap)
    with assms Resume obtain p where p: "p \<in> set snap" "p \<in> set (settled s)" and s': "s' = s\<lparr>phase := Looping\<rparr>"
      by (auto simp: list_ex_iff split: if_splits)
    from racing_resume_bound[OF assms(1) Racing p] assms(2) Racing
    show ?thesis by (simp add: s' bound_inv_def)
  next
    case (Joining snap)
    then show ?thesis using assms Resume
      by (auto simp: bound_inv_def split: if_splits)
  next
    case Finished
    then show ?thesis using assms Resume by simp
  qed
next
  case (Settle i)
  obtain res w' where j: "job (files ! i) (world s) = (res, w')" by (cases "job (files ! i) (world s)")
  from assms Settle j have g: "phase s \<noteq> Looping"
    and s': "s' = s\<lparr> settled := settled s @ [i], results := results s @ [res],
                      executing := splice_indexOf (executing s) i, world := w' \<rparr>"
    by (auto split: if_splits)
  have "length (executing s') \<le> length (executing s)"
    by (simp add: s' length_splice_indexOf)
  with assms(2) g show ?thesis
    by (auto simp: bound_inv_def s' split: phase.splits)
qed

lemma settled_room:
  assumes "sched_inv files s" "i < next_file s" "i \<notin> set (settled s)"
  shows "length (settled s) < length files"
proof -
  from assms(1) have d: "distinct (settled s)" and sub: "set (settled s) \<subseteq> {0..<next_file s}"
    and le: "next_file s \<le> length files"
    by (auto simp: sched_inv_def)
  from sub assms(2,3) have "set (settled s) \<subset> {0..<next_file s}" by auto
  then have "card (set (settled s)) < card {0..<next_file s}" by (rule psubset_card_mono[rotated]) simp
  with d le show ?thesis by (simp add: distinct_card)
qed

lemma remaining_step:
  assumes "sched_inv files s" "step job files N e s = Some s'"
  shows "remaining files s' < remaining files s"
proof (cases e)
  case Resume
  then show ?thesis using assms
    by (cases "phase s") (auto simp: remaining_def Let_def split: if_splits)
next
  case (Settle i)
  obtain res w' where j: "job (files ! i) (world s) = (res, w')" by (cases "job (files ! i) (world s)")
  from assms Settle j have g: "i < next_file s" "i \<notin> set (settled s)"
    and s': "s' = s\<lparr> settled := settled s @ [i], results := results s @ [res],
                      executing := splice_indexOf (executing s) i, world := w' \<rparr>"
    by (auto split: if_splits)
  from settled_room[OF assms(1) g] show ?thesis
    by (simp add: remaining_def s')
qed

lemma step_progress:
  assumes "sched_inv files s" "phase s \<noteq> Finished"
  shows "\<exists>e s'. step job files N e s = Some s'"
proof (cases "phase s")
  case Looping
  then have "step job files N Resume s \<noteq> None" by (simp add: Let_def)
  then show ?thesis by blast
next
  case (Racing snap)
  show ?thesis
  proof (cases "list_ex (\<lambda>p. p \<in> set (settled s)) snap")
    case True
    with Racing have "step job files N Resume s \<noteq> None" by simp
    then show ?thesis by blast
  next
    case False
    from assms(1) Racing have ne: "snap \<noteq> []" and sub: "set snap \<subseteq> {0..<next_file s}"
      and le: "next_file s \<le> length files"
      by (auto simp: sched_inv_def phase_inv_def)
    from ne have h: "hd snap \<in> set snap" by simp
    with False have "hd snap \<notin> set (settled s)" by (auto simp: list_ex_iff)
    moreover from h sub le have "hd snap < next_file s" "hd snap < length files" by auto
    ultimately have "step job files N (Settle (hd snap)) s \<noteq> None"
      using Racing by (simp split: prod.splits)
    then show ?thesis by blast
  qed
next
  case (Joining snap)
  show ?thesis
  proof (cases "list_all (\<lambda>p. p \<in> set (settled s)) snap")
    case True
    with Joining have "step job files N Resume s \<noteq> None" by simp
    then show ?thesis by blast
  next
    case False
    then obtain p where p: "p \<in> set snap" "p \<notin> set (settled s)" by (auto simp: list_all_iff)
    from assms(1) Joining have sub: "set snap \<subseteq> {0..<next_file s}"
      and le: "next_file s \<le> length files"
      by (auto simp: sched_inv_def phase_inv_def)
    with p have "p < next_file s" "p < length files" by auto
    with p have "step job files N (Settle p) s \<noteq> None"
      using Joining by (simp split: prod.splits)
    then show ?thesis by blast
  qed
next
  case Finished
  with assms show ?thesis by simp
qed

lemma run_append:
  "run job files N (es @ es') s =
     (case run job files N es s of None \<Rightarrow> None | Some s' \<Rightarrow> run job files N es' s')"
  by (induction es arbitrary: s) (simp_all split: option.splits)

lemma sched_inv_run:
  "sched_inv files s \<Longrightarrow> run job files N es s = Some s' \<Longrightarrow> sched_inv files s'"
proof (induction es arbitrary: s)
  case Nil
  then show ?case by simp
next
  case (Cons e es)
  then show ?case by (auto split: option.splits dest: sched_inv_step)
qed

lemma bound_inv_run:
  "sched_inv files s \<Longrightarrow> bound_inv N s \<Longrightarrow> run job files N es s = Some s' \<Longrightarrow> bound_inv N s'"
proof (induction es arbitrary: s)
  case Nil
  then show ?case by simp
next
  case (Cons e es)
  then show ?case by (auto split: option.splits dest: sched_inv_step bound_inv_step)
qed

lemma remaining_run:
  "sched_inv files s \<Longrightarrow> run job files N es s = Some s' \<Longrightarrow>
   length es + remaining files s' \<le> remaining files s"
proof (induction es arbitrary: s)
  case Nil
  then show ?case by simp
next
  case (Cons e es)
  from Cons.prems obtain s1 where s1: "step job files N e s = Some s1" "run job files N es s1 = Some s'"
    by (auto split: option.splits)
  from sched_inv_step[OF Cons.prems(1) s1(1)] have "sched_inv files s1" .
  from Cons.IH[OF this s1(2)] remaining_step[OF Cons.prems(1) s1(1)]
  show ?case by simp
qed

lemma run_to_finish:
  "sched_inv files s \<Longrightarrow> \<exists>es s'. run job files N es s = Some s' \<and> phase s' = Finished"
proof (induction "remaining files s" arbitrary: s rule: less_induct)
  case less
  show ?case
  proof (cases "phase s = Finished")
    case True
    then have "run job files N [] s = Some s \<and> phase s = Finished" by simp
    then show ?thesis by blast
  next
    case False
    from step_progress[OF less.prems False] obtain e s1 where s1: "step job files N e s = Some s1"
      by blast
    from less.hyps[OF remaining_step[OF less.prems s1] sched_inv_step[OF less.prems s1]]
    obtain es s' where "run job files N es s1 = Some s'" "phase s' = Finished" by blast
    with s1 have "run job files N (e # es) s = Some s' \<and> phase s' = Finished" by simp
    then show ?thesis by blast
  qed
qed

lemma finished_settled:
  assumes "sched_inv files s" "phase s = Finished"
  shows "mset (settled s) = mset [0..<length files]"
proof -
  from assms have d: "distinct (settled s)" and sub: "set (settled s) \<subseteq> {0..<length files}"
    and e: "in_flight s = []" and nf: "next_file s = length files"
    by (auto simp: sched_inv_def phase_inv_def)
  from e nf have "{0..<length files} \<subseteq> set (settled s)"
    by (auto simp: in_flight_def filter_empty_conv)
  with sub have "set (settled s) = set [0..<length files]" by auto
  with d show ?thesis using set_eq_iff_mset_eq_distinct[of "settled s" "[0..<length files]"]
    by (simp del: set_upt)
qed

lemma results_paths_step:
  assumes "\<And>f w. inputPath (fst (job f w)) = f"
    "map inputPath (results s) = map (\<lambda>i. files ! i) (settled s)"
    "step job files N e s = Some s'"
  shows "map inputPath (results s') = map (\<lambda>i. files ! i) (settled s')"
proof (cases e)
  case Resume
  then show ?thesis using assms(2,3)
    by (cases "phase s") (auto simp: Let_def split: if_splits)
next
  case (Settle i)
  obtain res w' where j: "job (files ! i) (world s) = (res, w')" by (cases "job (files ! i) (world s)")
  with assms(1)[of "files ! i" "world s"] have "inputPath res = files ! i" by simp
  with assms(2,3) Settle j show ?thesis by (auto split: if_splits)
qed

lemma results_paths_run:
  assumes "\<And>f w. inputPath (fst (job f w)) = f"
  shows "map inputPath (results s) = map (\<lambda>i. files ! i) (settled s) \<Longrightarrow>
    run job files N es s = Some s' \<Longrightarrow>
    map inputPath (results s') = map (\<lambda>i. files ! i) (settled s')"
proof (induction es arbitrary: s)
  case Nil
  then show ?case by simp
next
  case (Cons e es)
  from Cons.prems obtain s1 where s1: "step job files N e s = Some s1" "run job files N es s1 = Some s'"
    by (auto split: option.splits)
  from results_paths_step[OF assms Cons.prems(1) s1(1)] Cons.IH s1(2)
  show ?case by blast
qed

lemma Math_round_eq_round: "Math_round x = round x"
  by (simp add: Math_round_def round_def)

lemma reduction_eq_spec: "reduction t a = spec_reductionPercent t a"
  by (simp add: reduction_def spec_reductionPercent_def Math_round_eq_round mult.commute)

lemma reduction_zero: "reduction 0 a = 0"
  by (simp add: reduction_def)

lemma reduction_negative_iff:
  "reduction t a < 0 \<longleftrightarrow> 0 < t \<and> int t < 200 * (int a - int t)"
proof (cases "0 < t")
  case False
  then show ?thesis by (simp add: reduction_def)
next
  case True
  then have tpos: "(0::rat) < of_nat t" by simp
  have "reduction t a < 0 \<longleftrightarrow> (1 - of_nat a / of_nat t) * 100 + 1 / 2 < (0::rat)"
    using True by (simp add: reduction_def Math_round_def floor_less_iff)
  also have "\<dots> \<longleftrightarrow> ((1 - of_nat a / of_nat t) * 100 + 1 / 2) * (2 * of_nat t) < (0::rat)"
    using tpos by (simp add: mult_less_0_iff)
  also have "((1 - of_nat a / of_nat t) * 100 + 1 / 2) * (2 * of_nat t) = (200 * (of_nat t - of_nat a) + of_nat t :: rat)"
    using tpos by (simp add: field_simps)
  also have "(200 * (of_nat t - of_nat a) + of_nat t :: rat) = of_int (200 * (int t - int a) + int t)"
    by simp
  also have "(of_int (200 * (int t - int a) + int t) < (0::rat)) \<longleftrightarrow> 200 * (int t - int a) + int t < 0"
    by (simp only: of_int_less_0_iff)
  finally show ?thesis using True by auto
qed

lemma reduction_nonpositive: "t < a \<Longrightarrow> reduction t a \<le> 0"
proof (cases "0 < t")
  case False
  then show ?thesis by (simp add: reduction_def)
next
  case True
  assume "t < a"
  then have "(of_nat a / of_nat t :: rat) > 1" using True by simp
  then have "(1 - of_nat a / of_nat t) * 100 + 1 / 2 < (1::rat)" by simp
  then show ?thesis using True by (simp add: reduction_def Math_round_def floor_less_iff del: of_nat_less_iff)
qed

lemma counts_add_up:
  "successCount (printSummary rs) + failCount (printSummary rs) = length rs"
  by (simp add: printSummary_def Let_def sum_length_filter_compl)

text \<open>
  Claim C5. For every collection of results and every permutation of it, the summary
  has the same success count, failure count, total original size, total primary
  (AVIF) size, total fallback size and the same two reduction percentages. (The error
  list is printed in the order of the collection; as a multiset it is the same.)
\<close>

theorem summary_permutation_invariant:
  assumes "mset rs' = mset rs"
  shows "successCount (printSummary rs') = successCount (printSummary rs)
       \<and> failCount (printSummary rs') = failCount (printSummary rs)
       \<and> totalOriginalSize (printSummary rs') = totalOriginalSize (printSummary rs)
       \<and> totalAvifSize (printSummary rs') = totalAvifSize (printSummary rs)
       \<and> totalFallbackSize (printSummary rs') = totalFallbackSize (printSummary rs)
       \<and> avifReduction (printSummary rs') = avifReduction (printSummary rs)
       \<and> fallbackReduction (printSummary rs') = fallbackReduction (printSummary rs)
       \<and> mset (errorList (printSummary rs')) = mset (errorList (printSummary rs))"
proof -
  have c: "length (filter P rs') = length (filter P rs)" for P :: "result \<Rightarrow> bool"
    using assms by (simp add: length_filter_mset)
  have t: "reduce_sum f rs' = reduce_sum f rs" for f
    using assms by (simp add: reduce_sum_eq)
  have e: "mset (map g (filter P rs')) = mset (map g (filter P rs))"
    for P :: "result \<Rightarrow> bool" and g :: "result \<Rightarrow> string \<times> string"
    using assms by (metis mset_filter mset_map)
  show ?thesis
    by (simp add: printSummary_def Let_def c t e assms)
qed

definition demo_job :: "string \<Rightarrow> unit \<Rightarrow> result \<times> unit" where
  "demo_job file w = (Failure file ''Input file is missing'', w)"

text \<open>
  Claim C1. For every list of files, every concurrency limit \<open>N \<ge> 1\<close> and every
  execution of the loop, at no point are more than \<open>N\<close> jobs in flight. The jobs in
  flight are the started ones that have not settled, and the started ones are the
  first \<open>next_file\<close> files in input order; the array \<open>executing\<close> holds exactly the
  jobs in flight; and whenever the loop is about to start a job (phase \<open>Looping\<close>)
  fewer than \<open>N\<close> jobs are in flight, that is, once \<open>N\<close> jobs are in flight the loop
  stays suspended until one of them has settled.
\<close>

theorem scheduler_never_exceeds_concurrency:
  assumes "1 \<le> concurrency"
    and "run job files concurrency es (init_sched w) = Some s"
  shows "length (in_flight s) \<le> concurrency
       \<and> executing s = in_flight s
       \<and> next_file s \<le> length files
       \<and> (phase s = Looping \<longrightarrow> length (in_flight s) < concurrency)"
proof -
  have i: "sched_inv files s"
    using sched_inv_run[OF sched_inv_init assms(2)] .
  have b: "bound_inv concurrency s"
    using bound_inv_run[OF sched_inv_init bound_inv_init[OF assms(1)] assms(2)] .
  from i have e: "executing s = in_flight s" and n: "next_file s \<le> length files"
    by (simp_all add: sched_inv_def)
  from b e show ?thesis using n by (auto simp: bound_inv_def)
qed

theorem scheduler_never_exceeds_concurrency_witness:
  "run demo_job [''a'', ''b'', ''c''] 2 [Resume, Resume, Settle 1, Resume, Resume] (init_sched ())
     = Some \<lparr> next_file = 3, executing = [0, 2], settled = [1],
              results = [Failure ''b'' ''Input file is missing''],
              phase = Racing [0, 2], world = () \<rparr>
   \<and> in_flight \<lparr> next_file = 3, executing = [0, 2], settled = [1],
              results = [Failure ''b'' ''Input file is missing''],
              phase = Racing [0, 2], world = () \<rparr> = [0, 2]
   \<and> length (in_flight \<lparr> next_file = 3, executing = [0, 2], settled = [1],
              results = [Failure ''b'' ''Input file is missing''],
              phase = Racing [0, 2], world = () \<rparr>) \<le> 2"
proof -
  have r: "run demo_job [''a'', ''b'', ''c''] 2 [Resume, Resume, Settle 1, Resume, Resume] (init_sched ())
     = Some \<lparr> next_file = 3, executing = [0, 2], settled = [1],
              results = [Failure ''b'' ''Input file is missing''],
              phase = Racing [0, 2], world = () \<rparr>"
    by (simp add: init_sched_def demo_job_def splice_indexOf_def Let_def)
  have c: "(1::nat) \<le> 2" by simp
  from scheduler_never_exceeds_concurrency[OF c r] r show ?thesis by simp
qed

text \<open>
  Claim C3. For every list of \<open>M\<close> files the scheduler produces exactly \<open>M\<close> results,
  one for each job, and the summary's success count plus failure count is \<open>M\<close>.
  Executions that reach the end exist; every execution has at most \<open>3 M + 2\<close>
  events; an execution that has not reached the end can always go on (so every
  maximal execution reaches the end); and at the end there are \<open>M\<close> results, every
  job has settled exactly once, the two counts add up to \<open>M\<close>, and, for a job that
  returns its file as \<open>inputPath\<close> (as \<open>convertImage\<close> does), the input paths of the
  results are the files of the list, each as often as it occurs there.
\<close>

theorem scheduler_one_result_per_job:
  "(\<exists>es s. run job files concurrency es (init_sched w) = Some s \<and> phase s = Finished)
   \<and> (\<forall>es s. run job files concurrency es (init_sched w) = Some s \<longrightarrow>
         length es \<le> 3 * length files + 2
         \<and> (phase s \<noteq> Finished \<longrightarrow> (\<exists>e s'. step job files concurrency e s = Some s'))
         \<and> (phase s = Finished \<longrightarrow>
               length (results s) = length files
               \<and> mset (settled s) = mset [0..<length files]
               \<and> successCount (printSummary (results s)) + failCount (printSummary (results s))
                   = length files
               \<and> ((\<forall>f v. inputPath (fst (job f v)) = f) \<longrightarrow>
                    mset (map inputPath (results s)) = mset files)))"
proof (intro conjI allI impI)
  show "\<exists>es s. run job files concurrency es (init_sched w) = Some s \<and> phase s = Finished"
    using run_to_finish[OF sched_inv_init] .
next
  fix es s assume r: "run job files concurrency es (init_sched w) = Some s"
  have i: "sched_inv files s" using sched_inv_run[OF sched_inv_init r] .
  from remaining_run[OF sched_inv_init r]
  show "length es \<le> 3 * length files + 2"
    by (simp add: remaining_def init_sched_def)
  { assume "phase s \<noteq> Finished"
    from step_progress[OF i this]
    show "\<exists>e s'. step job files concurrency e s = Some s'" . }
  { assume f: "phase s = Finished"
    from finished_settled[OF i f] show m: "mset (settled s) = mset [0..<length files]" .
    from i have "length (results s) = length (settled s)" by (simp add: sched_inv_def)
    also have "\<dots> = length files" using m by (metis length_upt mset_eq_length diff_zero)
    finally show l: "length (results s) = length files" .
    show "successCount (printSummary (results s)) + failCount (printSummary (results s)) = length files"
      by (simp add: counts_add_up l)
    { assume j: "\<forall>f v. inputPath (fst (job f v)) = f"
      have "map inputPath (results s) = map (\<lambda>i. files ! i) (settled s)"
        by (rule results_paths_run[of job "init_sched w" files concurrency es s])
           (use j r in \<open>simp_all add: init_sched_def\<close>)
      then have "mset (map inputPath (results s)) = image_mset (\<lambda>i. files ! i) (mset (settled s))"
        by simp
      also have "\<dots> = mset (map (\<lambda>i. files ! i) [0..<length files])" by (simp add: m)
      also have "\<dots> = mset files" by (simp add: map_nth)
      finally show "mset (map inputPath (results s)) = mset files" .
    }
  }
qed
end
